theory Spec2Isabelle
  imports Main
begin

section \<open>Decoded records\<close>

text \<open>
  The constructors of \<^verbatim>\<open>clans.py\<close> receive \<^verbatim>\<open>data\<close>, a decoded JSON object. A
  decoded value is one of the JSON shapes; Python's \<^verbatim>\<open>None\<close> is \<open>JNull\<close>. An object is an
  association list in insertion order, each key bound once.
\<close>

datatype json =
    JNull
  | JBool bool
  | JInt int
  | JStr string
  | JArr "json list"
  | JObj "(string \<times> json) list"

type_synonym pydict = "(string \<times> json) list"

datatype error = KeyError | TypeError

text \<open>\<^verbatim>\<open>data.get(key)\<close>: the value bound to the key, \<^verbatim>\<open>None\<close> when the key is missing.\<close>

definition data_get :: "pydict \<Rightarrow> string \<Rightarrow> json" where
  "data_get data key = (case map_of data key of None \<Rightarrow> JNull | Some v \<Rightarrow> v)"

text \<open>\<^verbatim>\<open>data.get(key, default)\<close>: the default only replaces a missing key, not a null value.\<close>

definition data_get_default :: "pydict \<Rightarrow> string \<Rightarrow> json \<Rightarrow> json" where
  "data_get_default data key dflt = (case map_of data key of None \<Rightarrow> dflt | Some v \<Rightarrow> v)"

text \<open>
  \<^verbatim>\<open>for x in value\<close>: a list yields its elements, a string its characters, a dict its
  keys; \<^verbatim>\<open>None\<close>, booleans and integers raise \<^verbatim>\<open>TypeError\<close>. A generator expression
  evaluates its outermost iterable when it is created, so this error is raised by the
  constructor, not at the first access.
\<close>

fun py_iter :: "json \<Rightarrow> error + json list" where
  "py_iter (JArr xs) = Inr xs"
| "py_iter (JStr s) = Inr (map (\<lambda>c. JStr [c]) s)"
| "py_iter (JObj kvs) = Inr (map (\<lambda>kv. JStr (fst kv)) kvs)"
| "py_iter JNull = Inl TypeError"
| "py_iter (JBool b) = Inl TypeError"
| "py_iter (JInt i) = Inl TypeError"

section \<open>Generators\<close>

text \<open>
  A generator expression \<^verbatim>\<open>(f(x) for x in xs)\<close> is a one-shot sequence: the captured
  constructor \<open>gen_fn\<close> and the source elements not yet consumed, \<open>gen_src\<close>. The field
  \<open>gen_passes\<close> is instrumentation: it counts how many times the generator object has
  been iterated (by \<^verbatim>\<open>list(g)\<close> or by a comprehension over it). Iterating an exhausted
  generator yields nothing, but it is an iteration all the same.
\<close>

record ('a, 'b) generator =
  gen_fn :: "'a \<Rightarrow> 'b"
  gen_src :: "'a list"
  gen_passes :: nat

definition genexpr :: "('a \<Rightarrow> 'b) \<Rightarrow> 'a list \<Rightarrow> ('a, 'b) generator" where
  "genexpr f xs = \<lparr>gen_fn = f, gen_src = xs, gen_passes = 0\<rparr>"

definition drain :: "('a, 'b) generator \<Rightarrow> 'b list \<times> ('a, 'b) generator" where
  "drain g = (map (gen_fn g) (gen_src g), g\<lparr>gen_src := [], gen_passes := Suc (gen_passes g)\<rparr>)"

section \<open>Python dicts in insertion order\<close>

text \<open>
  \<^verbatim>\<open>d[k] = v\<close> on a dict: a key already present keeps its position and takes the new
  value, a new key goes to the end.
\<close>

fun dict_setitem :: "('k \<times> 'v) list \<Rightarrow> 'k \<Rightarrow> 'v \<Rightarrow> ('k \<times> 'v) list" where
  "dict_setitem [] k v = [(k, v)]"
| "dict_setitem ((k', v') # d) k v =
     (if k' = k then (k', v) # d else (k', v') # dict_setitem d k v)"

text \<open>\<^verbatim>\<open>{key(m): m for m in ms}\<close>, filled from left to right starting from \<open>d\<close>.\<close>

fun dict_comp_from :: "('v \<Rightarrow> 'k) \<Rightarrow> ('k \<times> 'v) list \<Rightarrow> 'v list \<Rightarrow> ('k \<times> 'v) list" where
  "dict_comp_from key d [] = d"
| "dict_comp_from key d (m # ms) = dict_comp_from key (dict_setitem d (key m) m) ms"

definition dict_comp :: "('v \<Rightarrow> 'k) \<Rightarrow> 'v list \<Rightarrow> ('k \<times> 'v) list" where
  "dict_comp key ms = dict_comp_from key [] ms"

definition dict_values :: "('k \<times> 'v) list \<Rightarrow> 'v list" where
  "dict_values d = map snd d"

text \<open>\<^verbatim>\<open>d[k]\<close>: raises \<^verbatim>\<open>KeyError\<close> on a missing key.\<close>

definition dict_getitem :: "('k \<times> 'v) list \<Rightarrow> 'k \<Rightarrow> error + 'v" where
  "dict_getitem d k = (case map_of d k of None \<Rightarrow> Inl KeyError | Some v \<Rightarrow> Inr v)"

section \<open>Collaborators outside \<^verbatim>\<open>clans.py\<close>\<close>

text \<open>
  Modelled from the spec: \<^verbatim>\<open>miscmodels.try_enum\<close> is imported by \<^verbatim>\<open>clans.py\<close> and its
  code is not part of the sources. The spec describes it as the lookup resolution
  \<^verbatim>\<open>ResolveLookup(kind, subrecord|absent, context)\<close>, which returns the resolved value, or
  unknown when the sub-record is absent, and does not fail on absent input.
\<close>

definition try_enum :: "(json \<Rightarrow> 'a) \<Rightarrow> json \<Rightarrow> 'a option" where
  "try_enum cls data = (if data = JNull then None else Some (cls data))"

text \<open>
  Modelled from the spec: \<^verbatim>\<open>utils.get\<close> is imported by \<^verbatim>\<open>clans.py\<close> and its code is not
  part of the sources. The spec describes the search as returning the first element, in
  iteration order, for which every supplied attribute equals the corresponding attribute
  of the candidate, and not-found when no element matches. Attribute access on an
  element is the parameter \<open>getattr\<close>; the keyword arguments are a list of pairs.
\<close>

definition get :: "('m \<Rightarrow> string \<Rightarrow> 'v) \<Rightarrow> 'm list \<Rightarrow> (string \<times> 'v) list \<Rightarrow> 'm option" where
  "get getattr iterable attrs =
     find (\<lambda>elem. list_all (\<lambda>av. getattr elem (fst av) = snd av) attrs) iterable"

text \<open>
  Modelled from the spec: \<^verbatim>\<open>utils.correct_tag\<close> is imported by \<^verbatim>\<open>clans.py\<close> and its code
  is not part of the sources. The operations below take the normaliser as a parameter;
  this definition follows the spec's description (trimming, uppercasing, enforcing a
  leading marker character) and is used where a concrete normaliser is needed.
\<close>

definition to_upper :: "char \<Rightarrow> char" where
  "to_upper c = (let n = (of_char c :: nat) in
                 if 97 \<le> n \<and> n \<le> 122 then char_of (n - 32) else c)"

definition correct_tag :: "string \<Rightarrow> string" where
  "correct_tag tag =
     CHR ''#'' # map to_upper (filter (\<lambda>c. c \<noteq> CHR '' '' \<and> c \<noteq> CHR ''#'') tag)"

section \<open>RankedClan\<close>

record 'loc RankedClan =
  location :: "'loc option"
  member_count :: json
  points :: json
  versus_points :: json
  rank :: json
  previous_rank :: json

text \<open>
  \<^verbatim>\<open>RankedClan._from_data\<close>. \<open>Location\<close> is the class imported from \<^verbatim>\<open>miscmodels\<close>, a
  parameter here. The fields set by the base class \<^verbatim>\<open>BaseClan\<close> are not part of the model.
\<close>

definition RankedClan_from_data :: "(json \<Rightarrow> 'loc) \<Rightarrow> pydict \<Rightarrow> 'loc RankedClan" where
  "RankedClan_from_data Location data =
     \<lparr> location = try_enum Location (data_get data ''location''),
       member_count = data_get data ''members'',
       points = data_get data ''clanPoints'',
       versus_points = data_get data ''clanVersusPoints'',
       rank = data_get data ''rank'',
       previous_rank = data_get data ''previousRank'' \<rparr>"

section \<open>Clan\<close>

text \<open>
  The slots of \<^verbatim>\<open>Clan\<close>. \<open>cache_labels\<close> and \<open>cache_members\<close> are \<^verbatim>\<open>_labels\<close> and
  \<^verbatim>\<open>_members\<close> (\<open>None\<close> is Python's \<^verbatim>\<open>None\<close>); \<open>iter_labels\<close> and \<open>iter_members\<close> are
  the generators \<^verbatim>\<open>__iter_labels\<close> and \<^verbatim>\<open>__iter_members\<close>.
\<close>

record ('l, 'm, 'loc, 'wl) Clan =
  type :: json
  description :: json
  location :: "'loc option"
  points :: json
  versus_points :: json
  required_trophies :: json
  war_frequency :: json
  war_win_streak :: json
  war_wins :: json
  war_ties :: json
  war_losses :: json
  public_war_log :: json
  member_count :: json
  cache_labels :: "'l list option"
  iter_labels :: "(json, 'l) generator"
  iter_members :: "(json, 'm) generator"
  cache_members :: "(string \<times> 'm) list option"
  label_cls :: "json \<Rightarrow> 'l"
  member_cls :: "json \<Rightarrow> 'm"
  war_league :: "'wl option"

text \<open>
  \<^verbatim>\<open>Clan.__init__\<close> followed by \<^verbatim>\<open>Clan._from_data\<close>. \<open>Label\<close>, \<open>ClanMember\<close>,
  \<open>Location\<close> and \<open>WarLeague\<close> are the imported classes, parameters here; the element
  constructors are taken to be total. The two generator expressions evaluate
  \<^verbatim>\<open>data_get("labels", [])\<close> and \<^verbatim>\<open>data_get("memberList", [])\<close> at once and raise when the
  value is not iterable; the elements are constructed only when a generator is drained.
\<close>

definition Clan_init ::
  "(json \<Rightarrow> 'l) \<Rightarrow> (json \<Rightarrow> 'm) \<Rightarrow> (json \<Rightarrow> 'loc) \<Rightarrow> (json \<Rightarrow> 'wl) \<Rightarrow> pydict
     \<Rightarrow> error + ('l, 'm, 'loc, 'wl) Clan" where
  "Clan_init Label ClanMember Location WarLeague data =
     (case py_iter (data_get_default data ''labels'' (JArr [])) of
        Inl e \<Rightarrow> Inl e
      | Inr ldatas \<Rightarrow>
          (case py_iter (data_get_default data ''memberList'' (JArr [])) of
             Inl e \<Rightarrow> Inl e
           | Inr mdatas \<Rightarrow>
               Inr \<lparr> type = data_get data ''type'',
                     description = data_get data ''description'',
                     location = try_enum Location (data_get data ''location''),
                     points = data_get data ''clanPoints'',
                     versus_points = data_get data ''clanVersusPoints'',
                     required_trophies = data_get data ''requiredTrophies'',
                     war_frequency = data_get data ''warFrequency'',
                     war_win_streak = data_get data ''warWinStreak'',
                     war_wins = data_get data ''warWins'',
                     war_ties = data_get data ''warTies'',
                     war_losses = data_get data ''warLosses'',
                     public_war_log = data_get data ''isWarLogPublic'',
                     member_count = data_get data ''members'',
                     cache_labels = None,
                     iter_labels = genexpr Label ldatas,
                     iter_members = genexpr ClanMember mdatas,
                     cache_members = None,
                     label_cls = Label,
                     member_cls = ClanMember,
                     war_league = try_enum WarLeague (data_get data ''warLeague'') \<rparr>))"

text \<open>The property \<^verbatim>\<open>Clan.labels\<close>: the result and the instance after the call.\<close>

definition labels :: "('l, 'm, 'loc, 'wl) Clan \<Rightarrow> 'l list \<times> ('l, 'm, 'loc, 'wl) Clan" where
  "labels self =
     (case cache_labels self of
        Some list_labels \<Rightarrow> (list_labels, self)
      | None \<Rightarrow>
          (let (list_labels, g) = drain (iter_labels self)
           in (list_labels, self\<lparr>cache_labels := Some list_labels, iter_labels := g\<rparr>)))"

text \<open>
  The statement \<^verbatim>\<open>dict_members = self._members = {m.tag: m for m in self.__iter_members}\<close>,
  which \<^verbatim>\<open>members\<close> and \<^verbatim>\<open>get_member\<close> share: it iterates the generator and binds
  \<^verbatim>\<open>_members\<close> to the new dict. \<open>tag\<close> reads the attribute \<^verbatim>\<open>m.tag\<close> of a member, a
  parameter since \<^verbatim>\<open>ClanMember\<close> is not part of the sources.
\<close>

definition fill_members ::
  "('m \<Rightarrow> string) \<Rightarrow> ('l, 'm, 'loc, 'wl) Clan
     \<Rightarrow> (string \<times> 'm) list \<times> ('l, 'm, 'loc, 'wl) Clan" where
  "fill_members tag self =
     (let (ms, g) = drain (iter_members self);
          dict_members = dict_comp tag ms
      in (dict_members, self\<lparr>cache_members := Some dict_members, iter_members := g\<rparr>))"

text \<open>The property \<^verbatim>\<open>Clan.members\<close>: the test is \<^verbatim>\<open>dict_members is not None\<close>.\<close>

definition members ::
  "('m \<Rightarrow> string) \<Rightarrow> ('l, 'm, 'loc, 'wl) Clan \<Rightarrow> 'm list \<times> ('l, 'm, 'loc, 'wl) Clan" where
  "members tag self =
     (case cache_members self of
        Some dict_members \<Rightarrow> (dict_values dict_members, self)
      | None \<Rightarrow>
          (let (dict_members, self') = fill_members tag self
           in (dict_values dict_members, self')))"

text \<open>
  \<^verbatim>\<open>Clan.get_member\<close>. \<open>normalise\<close> is \<^verbatim>\<open>correct_tag\<close>, taken to be a total function on
  strings. The test is \<^verbatim>\<open>not dict_members\<close>, which holds for \<^verbatim>\<open>None\<close> and for the empty
  dict. The \<^verbatim>\<open>try\<close> block turns \<^verbatim>\<open>KeyError\<close> into \<^verbatim>\<open>None\<close>; any other error would
  propagate.
\<close>

definition get_member ::
  "(string \<Rightarrow> string) \<Rightarrow> ('m \<Rightarrow> string) \<Rightarrow> string \<Rightarrow> ('l, 'm, 'loc, 'wl) Clan
     \<Rightarrow> (error + 'm option) \<times> ('l, 'm, 'loc, 'wl) Clan" where
  "get_member normalise tag t self =
     (let t' = normalise t;
          (dict_members, self') =
            (case cache_members self of
               None \<Rightarrow> fill_members tag self
             | Some d \<Rightarrow> if d = [] then fill_members tag self else (d, self))
      in (case dict_getitem dict_members t' of
            Inr m \<Rightarrow> Inr (Some m)
          | Inl KeyError \<Rightarrow> Inr None
          | Inl e \<Rightarrow> Inl e,
          self'))"

text \<open>\<^verbatim>\<open>Clan.get_member_by\<close>: \<^verbatim>\<open>get(self.members, **attrs)\<close>.\<close>

definition get_member_by ::
  "('m \<Rightarrow> string \<Rightarrow> 'v) \<Rightarrow> ('m \<Rightarrow> string) \<Rightarrow> (string \<times> 'v) list \<Rightarrow> ('l, 'm, 'loc, 'wl) Clan
     \<Rightarrow> 'm option \<times> ('l, 'm, 'loc, 'wl) Clan" where
  "get_member_by getattr tag attrs self =
     (let (ms, self') = members tag self in (get getattr ms attrs, self'))"

section \<open>Sequences of calls\<close>

datatype 'v call =
    Labels
  | Members
  | GetMember string
  | GetMemberBy "(string \<times> 'v) list"

definition step ::
  "(string \<Rightarrow> string) \<Rightarrow> ('m \<Rightarrow> string) \<Rightarrow> ('m \<Rightarrow> string \<Rightarrow> 'v) \<Rightarrow> 'v call
     \<Rightarrow> ('l, 'm, 'loc, 'wl) Clan \<Rightarrow> ('l, 'm, 'loc, 'wl) Clan" where
  "step normalise tag getattr c self =
     (case c of
        Labels \<Rightarrow> snd (labels self)
      | Members \<Rightarrow> snd (members tag self)
      | GetMember t \<Rightarrow> snd (get_member normalise tag t self)
      | GetMemberBy attrs \<Rightarrow> snd (get_member_by getattr tag attrs self))"

definition run ::
  "(string \<Rightarrow> string) \<Rightarrow> ('m \<Rightarrow> string) \<Rightarrow> ('m \<Rightarrow> string \<Rightarrow> 'v) \<Rightarrow> 'v call list
     \<Rightarrow> ('l, 'm, 'loc, 'wl) Clan \<Rightarrow> ('l, 'm, 'loc, 'wl) Clan" where
  "run normalise tag getattr cs self = fold (step normalise tag getattr) cs self"

section \<open>Notions used to state the properties\<close>

text \<open>
  The distinct elements of a list, each at the place of its first occurrence.
\<close>

fun first_seen :: "'a list \<Rightarrow> 'a list" where
  "first_seen [] = []"
| "first_seen (x # xs) = x # removeAll x (first_seen xs)"

text \<open>The elements a generator has still to produce.\<close>

definition pending :: "('a, 'b) generator \<Rightarrow> 'b list" where
  "pending g = map (gen_fn g) (gen_src g)"

text \<open>
  The states an instance goes through, for the labels \<open>ls\<close> and the members \<open>ms\<close> that
  its two generators produce: a cache is either still \<^verbatim>\<open>None\<close> with its generator
  untouched, or it holds the drained elements and its generator is exhausted.
\<close>

definition lazy_inv ::
  "'l list \<Rightarrow> 'm list \<Rightarrow> ('m \<Rightarrow> string) \<Rightarrow> ('l, 'm, 'loc, 'wl) Clan \<Rightarrow> bool" where
  "lazy_inv ls ms tag self =
     ((case cache_labels self of
         None \<Rightarrow> pending (iter_labels self) = ls \<and> gen_passes (iter_labels self) = 0
       | Some xs \<Rightarrow> xs = ls \<and> gen_src (iter_labels self) = []
                    \<and> gen_passes (iter_labels self) = 1)
      \<and>
      (case cache_members self of
         None \<Rightarrow> pending (iter_members self) = ms \<and> gen_passes (iter_members self) = 0
       | Some d \<Rightarrow> d = dict_comp tag ms \<and> gen_src (iter_members self) = []
                   \<and> 1 \<le> gen_passes (iter_members self)
                   \<and> (ms = [] \<or> gen_passes (iter_members self) = 1)))"

text \<open>A key of the decoded record is missing, or holds null.\<close>

definition absent :: "pydict \<Rightarrow> string \<Rightarrow> bool" where
  "absent data key = (map_of data key = None \<or> map_of data key = Some JNull)"

text \<open>Every supplied attribute of a candidate equals the expected value.\<close>

definition matches :: "('m \<Rightarrow> string \<Rightarrow> 'v) \<Rightarrow> (string \<times> 'v) list \<Rightarrow> 'm \<Rightarrow> bool" where
  "matches getattr attrs m = (\<forall>av \<in> set attrs. getattr m (fst av) = snd av)"

text \<open>
  Element constructors for concrete instances. \<^verbatim>\<open>Label\<close> and \<^verbatim>\<open>ClanMember\<close> are not part
  of the sources; where a property is instantiated at a concrete record, the element
  built from a sub-record is the sub-record itself (\<open>sub_cls\<close>), its attributes are the
  sub-record's keys (\<open>sub_attr\<close>) and its tag is the string under \<^verbatim>\<open>tag\<close> (\<open>sub_tag\<close>).
\<close>

definition sub_cls :: "json \<Rightarrow> json" where
  "sub_cls data = data"

definition sub_attr :: "json \<Rightarrow> string \<Rightarrow> json" where
  "sub_attr m a = (case m of JObj kvs \<Rightarrow> data_get kvs a | _ \<Rightarrow> JNull)"

definition sub_tag :: "json \<Rightarrow> string" where
  "sub_tag m = (case sub_attr m ''tag'' of JStr s \<Rightarrow> s | _ \<Rightarrow> [])"

section \<open>Insertion-ordered dicts\<close>

lemma set_first_seen: "set (first_seen xs) = set xs"
  by (induction xs) auto

lemma distinct_first_seen: "distinct (first_seen xs)"
  by (induction xs) (auto simp: distinct_removeAll set_first_seen)

lemma first_seen_distinct: "distinct xs \<Longrightarrow> first_seen xs = xs"
  by (induction xs) auto

lemma removeAll_commute: "removeAll a (removeAll b xs) = removeAll b (removeAll a xs)"
  by (induction xs) auto

lemma removeAll_first_seen: "removeAll k (first_seen xs) = first_seen (removeAll k xs)"
proof (induction xs)
  case Nil
  then show ?case by simp
next
  case (Cons x xs)
  then show ?case
    by (cases "x = k") (simp_all add: removeAll_commute [of k x] set_first_seen)
qed

lemma keys_dict_setitem:
  "map fst (dict_setitem d k v) = (if k \<in> fst ` set d then map fst d else map fst d @ [k])"
  by (induction d k v rule: dict_setitem.induct) auto

lemma keyset_dict_setitem: "fst ` set (dict_setitem d k v) = insert k (fst ` set d)"
  by (induction d k v rule: dict_setitem.induct) auto

lemma map_of_dict_setitem: "map_of (dict_setitem d k v) = (map_of d)(k \<mapsto> v)"
  by (induction d k v rule: dict_setitem.induct) auto

lemma keys_dict_comp_from:
  "map fst (dict_comp_from key d ms) =
     map fst d @ first_seen (filter (\<lambda>k. k \<notin> fst ` set d) (map key ms))"
proof (induction ms arbitrary: d)
  case Nil
  then show ?case by simp
next
  case (Cons m ms)
  have absorb: "insert (key m) (fst ` set d) = fst ` set d" if "key m \<in> fst ` set d"
    using that by blast
  have split: "filter (\<lambda>k. k \<noteq> key m \<and> k \<notin> fst ` set d) (map key ms)
      = removeAll (key m) (filter (\<lambda>k. k \<notin> fst ` set d) (map key ms))"
    by (induction ms) auto
  show ?case
  proof (cases "key m \<in> fst ` set d")
    case True
    then show ?thesis using Cons.IH [of "dict_setitem d (key m) m"]
      by (simp add: keys_dict_setitem keyset_dict_setitem absorb)
  next
    case False
    then show ?thesis using Cons.IH [of "dict_setitem d (key m) m"]
      by (simp add: keys_dict_setitem keyset_dict_setitem split removeAll_first_seen)
  qed
qed

lemma keys_dict_comp: "map fst (dict_comp key ms) = first_seen (map key ms)"
  by (simp add: dict_comp_def keys_dict_comp_from)

lemma map_of_dict_comp_from:
  "map_of (dict_comp_from key d ms) k =
     (if k \<in> key ` set ms then Some (last (filter (\<lambda>m. key m = k) ms)) else map_of d k)"
proof (induction ms arbitrary: d)
  case Nil
  then show ?case by simp
next
  case (Cons m ms)
  show ?case
    using Cons.IH [of "dict_setitem d (key m) m"]
    by (auto simp: map_of_dict_setitem filter_empty_conv)
qed

lemma map_of_dict_comp:
  "map_of (dict_comp key ms) k =
     (if k \<in> key ` set ms then Some (last (filter (\<lambda>m. key m = k) ms)) else None)"
  by (simp add: dict_comp_def map_of_dict_comp_from)

lemma distinct_keys_dict_comp: "distinct (map fst (dict_comp key ms))"
  by (simp add: keys_dict_comp distinct_first_seen)

lemma length_dict_comp: "length (dict_comp key ms) = card (key ` set ms)"
proof -
  have "length (dict_comp key ms) = length (map fst (dict_comp key ms))" by simp
  also have "\<dots> = card (set (first_seen (map key ms)))"
    unfolding keys_dict_comp by (simp add: distinct_card distinct_first_seen)
  finally show ?thesis by (simp add: set_first_seen)
qed

lemma values_dict_comp:
  "dict_values (dict_comp key ms) =
     map (\<lambda>k. last (filter (\<lambda>m. key m = k) ms)) (first_seen (map key ms))"
proof -
  let ?d = "dict_comp key ms"
  have "map snd ?d = map (\<lambda>k. the (map_of ?d k)) (map fst ?d)"
    using distinct_keys_dict_comp [of key ms]
    by (induction ?d) (auto simp: map_of_eq_None_iff [symmetric])
  then show ?thesis
    by (simp add: dict_values_def keys_dict_comp map_of_dict_comp set_first_seen)
qed

lemma dict_comp_Nil: "dict_comp key [] = []"
  by (simp add: dict_comp_def)

lemma dict_comp_eq_Nil: "dict_comp key ms = [] \<longleftrightarrow> ms = []"
proof
  assume "dict_comp key ms = []"
  then have "length (dict_comp key ms) = 0" by simp
  then have "card (key ` set ms) = 0" by (simp only: length_dict_comp)
  then show "ms = []" by simp
qed (simp add: dict_comp_Nil)

section \<open>The caches along a sequence of calls\<close>

lemma Clan_init_inv:
  assumes "Clan_init Label ClanMember Location WarLeague data = Inr self"
  shows "\<exists>ldatas mdatas.
           py_iter (data_get_default data ''labels'' (JArr [])) = Inr ldatas \<and>
           py_iter (data_get_default data ''memberList'' (JArr [])) = Inr mdatas \<and>
           lazy_inv (map Label ldatas) (map ClanMember mdatas) tag self"
  using assms
  by (auto simp: Clan_init_def lazy_inv_def pending_def genexpr_def split: sum.splits)

lemma labels_inv:
  assumes "lazy_inv ls ms tag self"
  shows "fst (labels self) = ls" and "lazy_inv ls ms tag (snd (labels self))"
  using assms
  by (auto simp: labels_def lazy_inv_def pending_def drain_def
           split: option.splits prod.splits)

lemma members_inv:
  assumes "lazy_inv ls ms tag self"
  shows "fst (members tag self) = dict_values (dict_comp tag ms)"
    and "lazy_inv ls ms tag (snd (members tag self))"
    and "cache_members (snd (members tag self)) = Some (dict_comp tag ms)"
  using assms
  by (auto simp: members_def fill_members_def lazy_inv_def pending_def drain_def Let_def
           split: option.splits prod.splits)

lemma get_member_inv:
  assumes "lazy_inv ls ms tag self"
  shows "fst (get_member normalise tag t self) =
           (case map_of (dict_comp tag ms) (normalise t) of
              None \<Rightarrow> Inr None | Some m \<Rightarrow> Inr (Some m))"
    and "lazy_inv ls ms tag (snd (get_member normalise tag t self))"
    and "cache_members (snd (get_member normalise tag t self)) = Some (dict_comp tag ms)"
  using assms
  by (auto simp: get_member_def fill_members_def lazy_inv_def pending_def drain_def
                 dict_getitem_def Let_def dict_comp_Nil dict_comp_eq_Nil
           split: option.splits prod.splits)

lemma get_member_by_inv:
  assumes "lazy_inv ls ms tag self"
  shows "fst (get_member_by getattr tag attrs self) =
           get getattr (dict_values (dict_comp tag ms)) attrs"
    and "lazy_inv ls ms tag (snd (get_member_by getattr tag attrs self))"
    and "cache_members (snd (get_member_by getattr tag attrs self)) = Some (dict_comp tag ms)"
  using members_inv [OF assms]
  by (auto simp: get_member_by_def split: prod.splits)

lemma step_inv:
  assumes "lazy_inv ls ms tag self"
  shows "lazy_inv ls ms tag (step normalise tag getattr c self)"
  using assms
  by (cases c) (simp_all add: step_def labels_inv members_inv get_member_inv get_member_by_inv)

lemma run_inv:
  assumes "lazy_inv ls ms tag self"
  shows "lazy_inv ls ms tag (run normalise tag getattr cs self)"
  using assms unfolding run_def
  by (induction cs arbitrary: self) (simp_all add: step_inv)

lemma py_iter_labels_array:
  "map_of data ''labels'' = Some (JArr ldatas) \<Longrightarrow>
     py_iter (data_get_default data ''labels'' (JArr [])) = Inr ldatas"
  by (simp add: data_get_default_def)

lemma py_iter_members_array:
  "map_of data ''memberList'' = Some (JArr mdatas) \<Longrightarrow>
     py_iter (data_get_default data ''memberList'' (JArr [])) = Inr mdatas"
  by (simp add: data_get_default_def)

section \<open>The normaliser at concrete tags\<close>

lemma correct_tag_example: "correct_tag ''  #abc123  '' = ''#ABC123''"
  by code_simp

lemma correct_tag_example2: "correct_tag ''#ABC123'' = ''#ABC123''"
  by code_simp

lemma correct_tag_example3: "correct_tag ''#nonexistent'' = ''#NONEXISTENT''"
  by code_simp

lemma correct_tag_lower: "correct_tag ''#abc'' = ''#ABC''"
  by code_simp

lemma correct_tag_upper: "correct_tag ''#ABC'' = ''#ABC''"
  by code_simp

section \<open>Facts about construction and about the members of a record\<close>

lemma data_get_absent: "absent data key \<Longrightarrow> data_get data key = JNull"
  by (auto simp: absent_def data_get_def)

text \<open>
  The constructor returns an instance exactly when the values under \<^verbatim>\<open>labels\<close> and
  \<^verbatim>\<open>memberList\<close> are iterable (or the keys are missing); no scalar key matters.
\<close>

lemma Clan_init_succeeds:
  "(\<exists>self. Clan_init Label ClanMember Location WarLeague data = Inr self) \<longleftrightarrow>
   (\<exists>ldatas mdatas.
       py_iter (data_get_default data ''labels'' (JArr [])) = Inr ldatas \<and>
       py_iter (data_get_default data ''memberList'' (JArr [])) = Inr mdatas)"
  by (auto simp: Clan_init_def split: sum.splits)

lemma key_last_filter:
  "k \<in> key ` set ms \<Longrightarrow> key (last (filter (\<lambda>m. key m = k) ms)) = k"
proof -
  assume "k \<in> key ` set ms"
  then have ne: "filter (\<lambda>m. key m = k) ms \<noteq> []"
    by (auto simp: filter_empty_conv)
  from last_in_set [OF ne] show ?thesis by simp
qed

lemma filter_same_key_distinct:
  "distinct (map key ms) \<Longrightarrow> m \<in> set ms \<Longrightarrow> filter (\<lambda>x. key x = key m) ms = [m]"
proof (induction ms)
  case Nil
  then show ?case by simp
next
  case (Cons a ms)
  show ?case
  proof (cases "a = m")
    case True
    have "key m \<notin> key ` set ms"
      using Cons.prems(1) True by simp
    then have "filter (\<lambda>x. key x = key m) ms = []"
      unfolding filter_empty_conv by (metis imageI)
    then show ?thesis using True by simp
  next
    case False
    then have "m \<in> set ms" using Cons.prems(2) by simp
    moreover have "key a \<noteq> key m" using Cons.prems(1) \<open>m \<in> set ms\<close> by auto
    ultimately show ?thesis using Cons by simp
  qed
qed

lemma members_reached:
  assumes "map_of data ''memberList'' = Some (JArr mdatas)"
      and "Clan_init Label ClanMember Location WarLeague data = Inr c0"
  shows "\<exists>ls. lazy_inv ls (map ClanMember mdatas) tag (run normalise tag getattr cs c0)"
proof -
  from Clan_init_inv [OF assms(2), of tag] py_iter_members_array [OF assms(1)]
  obtain ldatas where "lazy_inv (map Label ldatas) (map ClanMember mdatas) tag c0"
    by auto
  then have "lazy_inv (map Label ldatas) (map ClanMember mdatas) tag
               (run normalise tag getattr cs c0)"
    by (rule run_inv)
  then show ?thesis ..
qed

text \<open>
  How often the generators are iterated: the labels generator at most once; the members
  generator at most once when the source yields at least one member.
\<close>

lemma passes_bounded:
  assumes "Clan_init Label ClanMember Location WarLeague data = Inr c0"
      and "self = run normalise tag getattr cs c0"
  shows "gen_passes (iter_labels self) \<le> 1"
    and "py_iter (data_get_default data ''memberList'' (JArr [])) \<noteq> Inr [] \<Longrightarrow>
           gen_passes (iter_members self) \<le> 1"
proof -
  from Clan_init_inv [OF assms(1), of tag]
  obtain ldatas mdatas
    where m: "py_iter (data_get_default data ''memberList'' (JArr [])) = Inr mdatas"
      and "lazy_inv (map Label ldatas) (map ClanMember mdatas) tag c0"
    by auto
  then have inv: "lazy_inv (map Label ldatas) (map ClanMember mdatas) tag self"
    unfolding assms(2) by (intro run_inv)
  show "gen_passes (iter_labels self) \<le> 1"
    using inv by (auto simp: lazy_inv_def split: option.splits)
  show "gen_passes (iter_members self) \<le> 1"
    if "py_iter (data_get_default data ''memberList'' (JArr [])) \<noteq> Inr []"
    using inv that m by (auto simp: lazy_inv_def split: option.splits)
qed

text \<open>The definitions unfolded to evaluate the operations at a concrete record.\<close>

lemmas eval_defs =
  Clan_init_def data_get_default_def data_get_def run_def step_def get_member_by_def
  get_member_def fill_members_def members_def labels_def drain_def genexpr_def dict_comp_def
  dict_getitem_def dict_values_def sub_cls_def sub_tag_def sub_attr_def Let_def get_def
  try_enum_def

section \<open>Properties of \<^verbatim>\<open>Clan\<close> and \<^verbatim>\<open>RankedClan\<close>\<close>

text \<open>
  C1 (the code departs from it). The claim: each pending sequence is iterated at most
  once in the life of an instance, also for a clan with no members. On a record with no
  members, \<^verbatim>\<open>get_member\<close> finds the materialised mapping empty, takes it for missing
  (\<^verbatim>\<open>not dict_members\<close>) and iterates the members generator again, at every call: after
  two calls of \<^verbatim>\<open>get_member\<close>, or after \<^verbatim>\<open>members\<close> and one call of \<^verbatim>\<open>get_member\<close>, the
  generator has been iterated twice. The property \<^verbatim>\<open>members\<close> tests
  \<^verbatim>\<open>is not None\<close> and iterates once however often it is called.
\<close>

theorem C1_get_member_iterates_again:
  "map_sum id (gen_passes \<circ> iter_members
                 \<circ> run correct_tag sub_tag sub_attr [GetMember ''#ABC'', GetMember ''#ABC''])
      (Clan_init sub_cls sub_cls sub_cls sub_cls []) = Inr 2
 \<and> map_sum id (gen_passes \<circ> iter_members
                 \<circ> run correct_tag sub_tag sub_attr [Members, GetMember ''#ABC''])
      (Clan_init sub_cls sub_cls sub_cls sub_cls [(''memberList'', JArr [])]) = Inr 2
 \<and> map_sum id (gen_passes \<circ> iter_members
                 \<circ> run correct_tag sub_tag sub_attr [Members, Members])
      (Clan_init sub_cls sub_cls sub_cls sub_cls []) = Inr 1"
  by (simp add: eval_defs)

text \<open>
  C2 (amended). For a record whose \<^verbatim>\<open>memberList\<close> key holds an array, in every state the
  clan reaches, the members accessor returns as many members as the array has distinct
  tags; and for a tag \<open>t\<close> of the array that normalisation leaves unchanged,
  \<^verbatim>\<open>get_member(t)\<close> returns the member built from the last sub-record with that tag.
\<close>

theorem C2_members_unique_tags:
  assumes "map_of data ''memberList'' = Some (JArr mdatas)"
      and "Clan_init Label ClanMember Location WarLeague data = Inr c0"
      and "ms = map ClanMember mdatas"
      and "self = run normalise tag getattr cs c0"
  shows "length (fst (members tag self)) = card (tag ` set ms)
       \<and> (t \<in> tag ` set ms \<and> normalise t = t \<longrightarrow>
            fst (get_member normalise tag t self)
              = Inr (Some (last (filter (\<lambda>m. tag m = t) ms))))"
proof -
  from members_reached [OF assms(1,2)]
  obtain ls where inv: "lazy_inv ls ms tag self"
    unfolding assms(3,4) by blast
  show ?thesis
    by (simp add: members_inv(1) [OF inv] get_member_inv(1) [OF inv] dict_values_def
                  length_dict_comp map_of_dict_comp)
qed

text \<open>An instance of C2 with the tag \<^verbatim>\<open>#ABC\<close> at the first and the third place.\<close>

theorem C2_members_unique_tags_witness:
  "\<exists>c0. Clan_init sub_cls sub_cls sub_cls sub_cls
            [(''memberList'',
              JArr [JObj [(''tag'', JStr ''#ABC''), (''name'', JStr ''first'')],
                    JObj [(''tag'', JStr ''#P2''), (''name'', JStr ''other'')],
                    JObj [(''tag'', JStr ''#ABC''), (''name'', JStr ''second'')]])] = Inr c0
     \<and> length (fst (members sub_tag c0)) = 2
     \<and> correct_tag ''#ABC'' = ''#ABC''
     \<and> fst (get_member correct_tag sub_tag ''#ABC'' c0)
         = Inr (Some (JObj [(''tag'', JStr ''#ABC''), (''name'', JStr ''second'')]))"
proof -
  let ?mdatas = "[JObj [(''tag'', JStr ''#ABC''), (''name'', JStr ''first'')],
                    JObj [(''tag'', JStr ''#P2''), (''name'', JStr ''other'')],
                    JObj [(''tag'', JStr ''#ABC''), (''name'', JStr ''second'')]]"
  let ?data = "[(''memberList'', JArr ?mdatas)]"
  obtain c0 :: "(json, json, json, json) Clan"
    where c0: "Clan_init sub_cls sub_cls sub_cls sub_cls ?data = Inr c0"
    by (simp add: Clan_init_def data_get_default_def)
  have ml: "map_of ?data ''memberList'' = Some (JArr ?mdatas)" by simp
  have run0: "c0 = run correct_tag sub_tag sub_attr [] c0"
    by (simp add: run_def)
  have tags: "sub_tag ` set (map sub_cls ?mdatas) = {''#ABC'', ''#P2''}"
    by (auto simp: sub_tag_def sub_attr_def sub_cls_def data_get_def)
  have lst: "last (filter (\<lambda>m. sub_tag m = ''#ABC'') (map sub_cls ?mdatas))
         = JObj [(''tag'', JStr ''#ABC''), (''name'', JStr ''second'')]"
    by (simp add: sub_tag_def sub_attr_def sub_cls_def data_get_def)
  note th = C2_members_unique_tags [OF ml c0 refl run0, of "''#ABC''"]
  from th have "length (fst (members sub_tag c0)) = card {''#ABC'', ''#P2''}"
    unfolding tags by blast
  then have len: "length (fst (members sub_tag c0)) = 2" by simp
  from th correct_tag_upper
  have "fst (get_member correct_tag sub_tag ''#ABC'' c0)
         = Inr (Some (last (filter (\<lambda>m. sub_tag m = ''#ABC'') (map sub_cls ?mdatas))))"
    unfolding tags by blast
  then have "fst (get_member correct_tag sub_tag ''#ABC'' c0)
         = Inr (Some (JObj [(''tag'', JStr ''#ABC''), (''name'', JStr ''second'')]))"
    unfolding lst .
  with c0 len correct_tag_upper show ?thesis by blast
qed

text \<open>
  C2 as stated fails for a duplicated tag that normalisation changes: two sub-records
  share the tag \<^verbatim>\<open>#abc\<close>, \<^verbatim>\<open>get_member("#abc")\<close> looks up \<^verbatim>\<open>#ABC\<close> and returns \<^verbatim>\<open>None\<close>.
\<close>

theorem C2_unnormalised_tag_counterexample:
  "sub_tag (sub_cls (JObj [(''tag'', JStr ''#abc''), (''name'', JStr ''first'')])) = ''#abc''
 \<and> sub_tag (sub_cls (JObj [(''tag'', JStr ''#abc''), (''name'', JStr ''second'')])) = ''#abc''
 \<and> map_sum id (fst \<circ> get_member correct_tag sub_tag ''#abc'')
      (Clan_init sub_cls sub_cls sub_cls sub_cls
         [(''memberList'',
           JArr [JObj [(''tag'', JStr ''#abc''), (''name'', JStr ''first'')],
                 JObj [(''tag'', JStr ''#abc''), (''name'', JStr ''second'')]])])
     = Inr (Inr None)"
  by (simp add: eval_defs correct_tag_lower)

text \<open>
  C3. After a clan has been constructed, take any calls \<open>pre\<close>, then a call of the
  labels accessor, then any further calls \<open>cs\<close> (labels, members, get_member,
  get_member_by in any number and order): a later call of the labels accessor returns a
  list equal to the one the earlier call returned. The same holds for the members
  accessor.
\<close>

theorem C3_accessors_stable:
  assumes "Clan_init Label ClanMember Location WarLeague data = Inr c0"
  shows "fst (labels (run normalise tag getattr cs (snd (labels (run normalise tag getattr pre c0)))))
           = fst (labels (run normalise tag getattr pre c0))
       \<and> fst (members tag (run normalise tag getattr cs
                              (snd (members tag (run normalise tag getattr pre c0)))))
           = fst (members tag (run normalise tag getattr pre c0))"
proof -
  from Clan_init_inv [OF assms, of tag]
  obtain ldatas mdatas where inv: "lazy_inv (map Label ldatas) (map ClanMember mdatas) tag c0"
    by auto
  let ?ls = "map Label ldatas" and ?ms = "map ClanMember mdatas"
  have pre: "lazy_inv ?ls ?ms tag (run normalise tag getattr pre c0)"
    using inv by (rule run_inv)
  have l: "lazy_inv ?ls ?ms tag (run normalise tag getattr cs (snd (labels (run normalise tag getattr pre c0))))"
    by (rule run_inv [OF labels_inv(2) [OF pre]])
  have m: "lazy_inv ?ls ?ms tag (run normalise tag getattr cs (snd (members tag (run normalise tag getattr pre c0))))"
    by (rule run_inv [OF members_inv(2) [OF pre]])
  show ?thesis
    by (simp add: labels_inv(1) [OF pre] labels_inv(1) [OF l]
                  members_inv(1) [OF pre] members_inv(1) [OF m])
qed

text \<open>An instance of C3 with two labels and two members.\<close>

theorem C3_accessors_stable_witness:
  "\<exists>c0. Clan_init sub_cls sub_cls sub_cls sub_cls
            [(''labels'', JArr [JStr ''a'', JStr ''a'']),
             (''memberList'', JArr [JObj [(''tag'', JStr ''#P1'')], JObj [(''tag'', JStr ''#P2'')]])]
          = Inr c0
     \<and> fst (labels (run correct_tag sub_tag sub_attr [GetMember ''#P1'', Labels, Members]
                      (snd (labels (run correct_tag sub_tag sub_attr [GetMemberBy []] c0)))))
         = [JStr ''a'', JStr ''a'']
     \<and> fst (members sub_tag (run correct_tag sub_tag sub_attr [GetMember ''#P1'', Labels, Members]
                      (snd (members sub_tag (run correct_tag sub_tag sub_attr [GetMemberBy []] c0)))))
         = [JObj [(''tag'', JStr ''#P1'')], JObj [(''tag'', JStr ''#P2'')]]"
proof -
  let ?data = "[(''labels'', JArr [JStr ''a'', JStr ''a'']),
             (''memberList'', JArr [JObj [(''tag'', JStr ''#P1'')], JObj [(''tag'', JStr ''#P2'')]])]"
  obtain c0 :: "(json, json, json, json) Clan"
    where c0: "Clan_init sub_cls sub_cls sub_cls sub_cls ?data = Inr c0"
    by (simp add: Clan_init_def data_get_default_def)
  have first: "fst (labels (run correct_tag sub_tag sub_attr [GetMemberBy []] c0)) = [JStr ''a'', JStr ''a'']"
    "fst (members sub_tag (run correct_tag sub_tag sub_attr [GetMemberBy []] c0)) = [JObj [(''tag'', JStr ''#P1'')], JObj [(''tag'', JStr ''#P2'')]]"
    using c0
    by (auto simp: Clan_init_def data_get_default_def run_def step_def get_member_by_def
         members_def fill_members_def labels_def drain_def genexpr_def dict_comp_def dict_values_def sub_cls_def
         sub_tag_def sub_attr_def data_get_def Let_def)
  from C3_accessors_stable [OF c0, of correct_tag sub_tag sub_attr
         "[GetMember ''#P1'', Labels, Members]" "[GetMemberBy []]"] c0 first
  show ?thesis by simp
qed

text \<open>
  C4. In every state a clan reaches, \<^verbatim>\<open>get_member_by(attrs)\<close> leaves the member mapping
  materialised and searches its values in iteration order: a result \<open>m\<close> is a member at
  some position that matches every supplied attribute while no member at an earlier
  position does, and the result is \<^verbatim>\<open>None\<close> exactly when no member matches. The search
  itself is \<open>get\<close>.
\<close>

theorem C4_get_member_by_first_match:
  assumes "Clan_init Label ClanMember Location WarLeague data = Inr c0"
      and "self = run normalise tag getattr cs c0"
      and "(r, self') = get_member_by getattr tag attrs self"
  shows "\<exists>d. cache_members self' = Some d
           \<and> fst (members tag self') = dict_values d
           \<and> (case r of
                 None \<Rightarrow> \<forall>m \<in> set (dict_values d). \<not> matches getattr attrs m
               | Some m \<Rightarrow>
                   \<exists>i < length (dict_values d).
                      dict_values d ! i = m \<and> matches getattr attrs m
                      \<and> (\<forall>j < i. \<not> matches getattr attrs (dict_values d ! j)))"
proof -
  from Clan_init_inv [OF assms(1), of tag]
  obtain ldatas mdatas where "lazy_inv (map Label ldatas) (map ClanMember mdatas) tag c0"
    by auto
  then have inv: "lazy_inv (map Label ldatas) (map ClanMember mdatas) tag self"
    unfolding assms(2) by (rule run_inv)
  let ?d = "dict_comp tag (map ClanMember mdatas)"
  have r: "r = get getattr (dict_values ?d) attrs"
    and s: "self' = snd (get_member_by getattr tag attrs self)"
    using assms(3) get_member_by_inv(1) [OF inv, of getattr attrs] by (simp_all add: prod_eq_iff)
  have cache: "cache_members self' = Some ?d"
    unfolding s by (rule get_member_by_inv(3) [OF inv])
  have again: "fst (members tag self') = dict_values ?d"
    unfolding s by (rule members_inv(1) [OF get_member_by_inv(2) [OF inv]])
  have m: "matches getattr attrs = (\<lambda>elem. list_all (\<lambda>av. getattr elem (fst av) = snd av) attrs)"
    by (simp add: matches_def list_all_iff fun_eq_iff)
  have "case r of
          None \<Rightarrow> \<forall>m \<in> set (dict_values ?d). \<not> matches getattr attrs m
        | Some m \<Rightarrow>
            \<exists>i < length (dict_values ?d).
               dict_values ?d ! i = m \<and> matches getattr attrs m
               \<and> (\<forall>j < i. \<not> matches getattr attrs (dict_values ?d ! j))"
  proof (cases r)
    case None
    then have "find (matches getattr attrs) (dict_values ?d) = None"
      using r by (simp add: get_def m)
    then show ?thesis using None by (auto simp: find_None_iff)
  next
    case (Some x)
    then have "find (matches getattr attrs) (dict_values ?d) = Some x"
      using r by (simp add: get_def m)
    then show ?thesis using Some by (auto simp: find_Some_iff)
  qed
  with cache again show ?thesis by blast
qed

text \<open>An instance of C4: two members of level 125, the earlier one is returned.\<close>

theorem C4_get_member_by_first_match_witness:
  "\<exists>c0. Clan_init sub_cls sub_cls sub_cls sub_cls
            [(''memberList'',
              JArr [JObj [(''tag'', JStr ''#P1''), (''level'', JInt 90)],
                    JObj [(''tag'', JStr ''#P2''), (''level'', JInt 125)],
                    JObj [(''tag'', JStr ''#P3''), (''level'', JInt 125)]])] = Inr c0
     \<and> fst (get_member_by sub_attr sub_tag [(''level'', JInt 125)] c0)
         = Some (JObj [(''tag'', JStr ''#P2''), (''level'', JInt 125)])
     \<and> fst (get_member_by sub_attr sub_tag [(''level'', JInt 7)] c0) = None
     \<and> (\<exists>d. cache_members (snd (get_member_by sub_attr sub_tag [(''level'', JInt 125)] c0)) = Some d
            \<and> dict_values d ! 1 = JObj [(''tag'', JStr ''#P2''), (''level'', JInt 125)])"
proof -
  let ?data = "[(''memberList'',
              JArr [JObj [(''tag'', JStr ''#P1''), (''level'', JInt 90)],
                    JObj [(''tag'', JStr ''#P2''), (''level'', JInt 125)],
                    JObj [(''tag'', JStr ''#P3''), (''level'', JInt 125)]])]"
  obtain c0 :: "(json, json, json, json) Clan"
    where c0: "Clan_init sub_cls sub_cls sub_cls sub_cls ?data = Inr c0"
    by (simp add: Clan_init_def data_get_default_def)
  have run0: "run correct_tag sub_tag sub_attr [] c0 = c0"
    by (simp add: run_def)
  have hit: "fst (get_member_by sub_attr sub_tag [(''level'', JInt 125)] c0)
         = Some (JObj [(''tag'', JStr ''#P2''), (''level'', JInt 125)])"
    and miss: "fst (get_member_by sub_attr sub_tag [(''level'', JInt 7)] c0) = None"
    and vals: "fst (members sub_tag (snd (get_member_by sub_attr sub_tag [(''level'', JInt 125)] c0))) ! 1
         = JObj [(''tag'', JStr ''#P2''), (''level'', JInt 125)]"
    using c0 by (auto simp: eval_defs)
  have call: "(fst (get_member_by sub_attr sub_tag [(''level'', JInt 125)] c0),
               snd (get_member_by sub_attr sub_tag [(''level'', JInt 125)] c0))
              = get_member_by sub_attr sub_tag [(''level'', JInt 125)] c0"
    by simp
  from C4_get_member_by_first_match [OF c0 run0 [symmetric] call]
  obtain d where "cache_members (snd (get_member_by sub_attr sub_tag [(''level'', JInt 125)] c0)) = Some d"
    and "fst (members sub_tag (snd (get_member_by sub_attr sub_tag [(''level'', JInt 125)] c0))) = dict_values d"
    by blast
  with c0 hit miss vals show ?thesis by auto
qed

text \<open>
  C5. In every state a clan reaches, \<^verbatim>\<open>get_member(t)\<close> looks up the normalised form of
  \<open>t\<close>: its result is that of a lookup without normalisation of \<open>normalise t\<close>. For a
  normaliser that leaves the normalised form of \<open>t\<close> unchanged (the spec requires the
  normaliser to be idempotent), \<^verbatim>\<open>get_member(t)\<close> and \<^verbatim>\<open>get_member(normalise t)\<close>
  return the same result, from the same state and one after the other in either order.
\<close>

theorem C5_get_member_normalises:
  assumes "Clan_init Label ClanMember Location WarLeague data = Inr c0"
      and "self = run normalise tag getattr cs c0"
      and "normalise (normalise t) = normalise t"
  shows "fst (get_member normalise tag t self) = fst (get_member (\<lambda>x. x) tag (normalise t) self)
       \<and> fst (get_member normalise tag t self) = fst (get_member normalise tag (normalise t) self)
       \<and> fst (get_member normalise tag (normalise t) (snd (get_member normalise tag t self)))
           = fst (get_member normalise tag t self)
       \<and> fst (get_member normalise tag t (snd (get_member normalise tag (normalise t) self)))
           = fst (get_member normalise tag t self)"
proof -
  from Clan_init_inv [OF assms(1), of tag]
  obtain ldatas mdatas where "lazy_inv (map Label ldatas) (map ClanMember mdatas) tag c0"
    by auto
  then have inv: "lazy_inv (map Label ldatas) (map ClanMember mdatas) tag self"
    unfolding assms(2) by (rule run_inv)
  show ?thesis
    by (simp add: get_member_inv(1) [OF inv] get_member_inv(1) [OF get_member_inv(2) [OF inv]]
                  assms(3))
qed

text \<open>An instance of C5 at the raw tag of the spec's example.\<close>

theorem C5_get_member_normalises_witness:
  "\<exists>c0. Clan_init sub_cls sub_cls sub_cls sub_cls
            [(''memberList'', JArr [JObj [(''tag'', JStr ''#ABC123''), (''name'', JStr ''Joe'')]])]
          = Inr c0
     \<and> correct_tag (correct_tag ''  #abc123  '') = correct_tag ''  #abc123  ''
     \<and> correct_tag ''  #abc123  '' = ''#ABC123''
     \<and> fst (get_member correct_tag sub_tag ''  #abc123  '' (run correct_tag sub_tag sub_attr [Labels] c0))
         = Inr (Some (JObj [(''tag'', JStr ''#ABC123''), (''name'', JStr ''Joe'')]))
     \<and> fst (get_member correct_tag sub_tag ''#ABC123'' (run correct_tag sub_tag sub_attr [Labels] c0))
         = Inr (Some (JObj [(''tag'', JStr ''#ABC123''), (''name'', JStr ''Joe'')]))"
proof -
  let ?data = "[(''memberList'', JArr [JObj [(''tag'', JStr ''#ABC123''), (''name'', JStr ''Joe'')]])]"
  obtain c0 :: "(json, json, json, json) Clan"
    where c0: "Clan_init sub_cls sub_cls sub_cls sub_cls ?data = Inr c0"
    by (simp add: Clan_init_def data_get_default_def)
  have idem: "correct_tag (correct_tag ''  #abc123  '') = correct_tag ''  #abc123  ''"
    by (simp add: correct_tag_example correct_tag_example2)
  have direct: "fst (get_member correct_tag sub_tag ''#ABC123'' (run correct_tag sub_tag sub_attr [Labels] c0))
         = Inr (Some (JObj [(''tag'', JStr ''#ABC123''), (''name'', JStr ''Joe'')]))"
    using c0
    by (auto simp: Clan_init_def data_get_default_def run_def step_def get_member_def fill_members_def
         labels_def drain_def genexpr_def dict_comp_def dict_getitem_def sub_cls_def
         sub_tag_def sub_attr_def data_get_def Let_def correct_tag_example2)
  from C5_get_member_normalises [OF c0 refl idem, of sub_tag sub_attr "[Labels]"]
  have "fst (get_member correct_tag sub_tag ''  #abc123  ''
               (run correct_tag sub_tag sub_attr [Labels] c0))
        = fst (get_member correct_tag sub_tag (correct_tag ''  #abc123  '')
               (run correct_tag sub_tag sub_attr [Labels] c0))"
    by blast
  then have raw: "fst (get_member correct_tag sub_tag ''  #abc123  ''
               (run correct_tag sub_tag sub_attr [Labels] c0))
        = Inr (Some (JObj [(''tag'', JStr ''#ABC123''), (''name'', JStr ''Joe'')]))"
    unfolding correct_tag_example direct .
  from c0 idem raw direct correct_tag_example show ?thesis by blast
qed

text \<open>
  C6. In every state a clan reaches, \<^verbatim>\<open>get_member(t)\<close> returns a result and raises no
  error; after the call the member mapping is materialised, and when this mapping is
  empty or does not have the normalised tag among its keys the result is \<^verbatim>\<open>None\<close>.
\<close>

theorem C6_get_member_not_found:
  assumes "Clan_init Label ClanMember Location WarLeague data = Inr c0"
      and "self = run normalise tag getattr cs c0"
      and "(r, self') = get_member normalise tag t self"
  shows "(\<exists>m. r = Inr m)
       \<and> (\<exists>d. cache_members self' = Some d
              \<and> (d = [] \<or> normalise t \<notin> fst ` set d \<longrightarrow> r = Inr None))"
proof -
  from Clan_init_inv [OF assms(1), of tag]
  obtain ldatas mdatas where "lazy_inv (map Label ldatas) (map ClanMember mdatas) tag c0"
    by auto
  then have inv: "lazy_inv (map Label ldatas) (map ClanMember mdatas) tag self"
    unfolding assms(2) by (rule run_inv)
  have r: "r = fst (get_member normalise tag t self)"
    and s: "self' = snd (get_member normalise tag t self)"
    using assms(3) by (simp_all add: prod_eq_iff)
  show ?thesis
    unfolding r s get_member_inv(1) [OF inv] get_member_inv(3) [OF inv]
    by (auto split: option.splits simp: map_of_eq_None_iff [symmetric])
qed


text \<open>An instance of C6: a tag that no member has.\<close>

theorem C6_get_member_not_found_witness:
  "\<exists>c0. Clan_init sub_cls sub_cls sub_cls sub_cls
            [(''memberList'', JArr [JObj [(''tag'', JStr ''#P1'')]])] = Inr c0
     \<and> cache_members (snd (get_member correct_tag sub_tag ''#nonexistent''
                             (run correct_tag sub_tag sub_attr [Members] c0)))
         = Some [(''#P1'', JObj [(''tag'', JStr ''#P1'')])]
     \<and> correct_tag ''#nonexistent'' \<notin> fst ` set [(''#P1'', JObj [(''tag'', JStr ''#P1'')])]
     \<and> fst (get_member correct_tag sub_tag ''#nonexistent''
               (run correct_tag sub_tag sub_attr [Members] c0)) = Inr None"
proof -
  let ?data = "[(''memberList'', JArr [JObj [(''tag'', JStr ''#P1'')]])]"
  obtain c0 :: "(json, json, json, json) Clan"
    where c0: "Clan_init sub_cls sub_cls sub_cls sub_cls ?data = Inr c0"
    by (simp add: Clan_init_def data_get_default_def)
  let ?call = "get_member correct_tag sub_tag ''#nonexistent''
                 (run correct_tag sub_tag sub_attr [Members] c0)"
  have cache: "cache_members (snd ?call) = Some [(''#P1'', JObj [(''tag'', JStr ''#P1'')])]"
    using c0 by (auto simp: eval_defs)
  have key: "correct_tag ''#nonexistent'' \<notin> fst ` set [(''#P1'', JObj [(''tag'', JStr ''#P1'')])]"
    by (simp add: correct_tag_example3)
  from C6_get_member_not_found [OF c0 refl prod.collapse,
         of correct_tag sub_tag "''#nonexistent''" sub_attr "[Members]"] cache key
  have "fst ?call = Inr None" by auto
  with c0 cache key show ?thesis by blast
qed

text \<open>
  C7. For every record and each optional scalar key taken alone: when the key is
  missing or holds null, the field that \<^verbatim>\<open>RankedClan._from_data\<close> and
  \<^verbatim>\<open>Clan._from_data\<close> set from it is \<^verbatim>\<open>None\<close> (for an integer field not \<open>0\<close>, for the
  location and the war league no resolved value: \<open>try_enum\<close> returns \<^verbatim>\<open>None\<close> on absent
  input). For \<^verbatim>\<open>Clan\<close> this is about every record from which the constructor returns an
  instance.
\<close>

theorem C7_absent_fields_unknown:
  "(absent data ''clanPoints'' \<longrightarrow>
      RankedClan.points (RankedClan_from_data Location data) = JNull)
 \<and> (absent data ''clanVersusPoints'' \<longrightarrow>
      RankedClan.versus_points (RankedClan_from_data Location data) = JNull)
 \<and> (absent data ''members'' \<longrightarrow>
      RankedClan.member_count (RankedClan_from_data Location data) = JNull)
 \<and> (absent data ''location'' \<longrightarrow>
      RankedClan.location (RankedClan_from_data Location data) = None)
 \<and> (absent data ''rank'' \<longrightarrow> rank (RankedClan_from_data Location data) = JNull)
 \<and> (absent data ''previousRank'' \<longrightarrow>
      previous_rank (RankedClan_from_data Location data) = JNull)
 \<and> (\<forall>self. Clan_init Label ClanMember Location WarLeague data = Inr self \<longrightarrow>
       (absent data ''clanPoints'' \<longrightarrow> points self = JNull)
     \<and> (absent data ''clanVersusPoints'' \<longrightarrow> versus_points self = JNull)
     \<and> (absent data ''members'' \<longrightarrow> member_count self = JNull)
     \<and> (absent data ''location'' \<longrightarrow> location self = None)
     \<and> (absent data ''type'' \<longrightarrow> type self = JNull)
     \<and> (absent data ''requiredTrophies'' \<longrightarrow> required_trophies self = JNull)
     \<and> (absent data ''warFrequency'' \<longrightarrow> war_frequency self = JNull)
     \<and> (absent data ''warWinStreak'' \<longrightarrow> war_win_streak self = JNull)
     \<and> (absent data ''warWins'' \<longrightarrow> war_wins self = JNull)
     \<and> (absent data ''warTies'' \<longrightarrow> war_ties self = JNull)
     \<and> (absent data ''warLosses'' \<longrightarrow> war_losses self = JNull)
     \<and> (absent data ''isWarLogPublic'' \<longrightarrow> public_war_log self = JNull)
     \<and> (absent data ''description'' \<longrightarrow> description self = JNull)
     \<and> (absent data ''warLeague'' \<longrightarrow> war_league self = None))"
proof -
  have ranked: "RankedClan.points (RankedClan_from_data Location data) = data_get data ''clanPoints''"
    "RankedClan.versus_points (RankedClan_from_data Location data) = data_get data ''clanVersusPoints''"
    "RankedClan.member_count (RankedClan_from_data Location data) = data_get data ''members''"
    "RankedClan.location (RankedClan_from_data Location data) = try_enum Location (data_get data ''location'')"
    "rank (RankedClan_from_data Location data) = data_get data ''rank''"
    "previous_rank (RankedClan_from_data Location data) = data_get data ''previousRank''"
    by (simp_all add: RankedClan_from_data_def)
  have clan: "points self = data_get data ''clanPoints''"
    "versus_points self = data_get data ''clanVersusPoints''"
    "member_count self = data_get data ''members''"
    "location self = try_enum Location (data_get data ''location'')"
    "type self = data_get data ''type''"
    "required_trophies self = data_get data ''requiredTrophies''"
    "war_frequency self = data_get data ''warFrequency''"
    "war_win_streak self = data_get data ''warWinStreak''"
    "war_wins self = data_get data ''warWins''"
    "war_ties self = data_get data ''warTies''"
    "war_losses self = data_get data ''warLosses''"
    "public_war_log self = data_get data ''isWarLogPublic''"
    "description self = data_get data ''description''"
    "war_league self = try_enum WarLeague (data_get data ''warLeague'')"
    if "Clan_init Label ClanMember Location WarLeague data = Inr self" for self
    using that by (auto simp: Clan_init_def split: sum.splits)
  show ?thesis
    by (simp add: ranked clan data_get_absent try_enum_def)
qed

text \<open>An instance of C7: one key null, others missing, one present.\<close>

theorem C7_absent_fields_unknown_witness:
  "absent [(''clanPoints'', JNull), (''members'', JInt 50)] ''clanPoints''
 \<and> absent [(''clanPoints'', JNull), (''members'', JInt 50)] ''location''
 \<and> absent [(''clanPoints'', JNull), (''members'', JInt 50)] ''rank''
 \<and> RankedClan.points (RankedClan_from_data sub_cls [(''clanPoints'', JNull), (''members'', JInt 50)]) = JNull
 \<and> RankedClan.location (RankedClan_from_data sub_cls [(''clanPoints'', JNull), (''members'', JInt 50)]) = None
 \<and> rank (RankedClan_from_data sub_cls [(''clanPoints'', JNull), (''members'', JInt 50)]) = JNull
 \<and> (\<exists>self. Clan_init sub_cls sub_cls sub_cls sub_cls [(''clanPoints'', JNull), (''members'', JInt 50)]
              = Inr self
          \<and> points self = JNull \<and> location self = None \<and> member_count self = JInt 50)"
proof -
  let ?data = "[(''clanPoints'', JNull), (''members'', JInt 50)]"
  obtain self :: "(json, json, json, json) Clan"
    where self: "Clan_init sub_cls sub_cls sub_cls sub_cls ?data = Inr self"
    by (simp add: Clan_init_def data_get_default_def)
  have a: "absent ?data ''clanPoints''" "absent ?data ''location''" "absent ?data ''rank''"
    by (simp_all add: absent_def)
  have present: "member_count self = JInt 50"
    using self by (auto simp: Clan_init_def data_get_default_def data_get_def)
  note th = C7_absent_fields_unknown [of ?data sub_cls sub_cls sub_cls sub_cls]
  from th a have "RankedClan.points (RankedClan_from_data sub_cls ?data) = JNull"
    "RankedClan.location (RankedClan_from_data sub_cls ?data) = None"
    "rank (RankedClan_from_data sub_cls ?data) = JNull"
    by blast+
  moreover from th a self have "points self = JNull" "location self = None"
    by blast+
  ultimately show ?thesis using a self present by blast
qed

text \<open>
  C8. For a record whose \<^verbatim>\<open>labels\<close> key holds an array, the labels accessor returns, at
  any moment after construction, the list of the labels built from the array's elements
  in the array's order: same length, and at every position the label built from the
  sub-record at that position (so duplicates stay where they are).
\<close>

theorem C8_labels_order:
  assumes "map_of data ''labels'' = Some (JArr ldatas)"
      and "Clan_init Label ClanMember Location WarLeague data = Inr c0"
  shows "fst (labels (run normalise tag getattr cs c0)) = map Label ldatas
       \<and> length (fst (labels (run normalise tag getattr cs c0))) = length ldatas
       \<and> (\<forall>i < length ldatas.
             fst (labels (run normalise tag getattr cs c0)) ! i = Label (ldatas ! i))"
proof -
  from Clan_init_inv [OF assms(2), of tag] py_iter_labels_array [OF assms(1)]
  obtain mdatas where "lazy_inv (map Label ldatas) (map ClanMember mdatas) tag c0"
    by auto
  then have "lazy_inv (map Label ldatas) (map ClanMember mdatas) tag
               (run normalise tag getattr cs c0)"
    by (rule run_inv)
  then have "fst (labels (run normalise tag getattr cs c0)) = map Label ldatas"
    by (rule labels_inv(1))
  then show ?thesis by simp
qed

text \<open>An instance of C8 with a duplicated label.\<close>

theorem C8_labels_order_witness:
  "\<exists>c0. Clan_init sub_cls sub_cls sub_cls sub_cls
            [(''labels'', JArr [JStr ''a'', JStr ''b'', JStr ''a''])] = Inr c0
     \<and> fst (labels (run correct_tag sub_tag sub_attr [GetMember ''#X'', Labels, Members] c0))
         = [JStr ''a'', JStr ''b'', JStr ''a'']"
proof -
  let ?data = "[(''labels'', JArr [JStr ''a'', JStr ''b'', JStr ''a''])]"
  obtain c0 :: "(json, json, json, json) Clan"
    where c0: "Clan_init sub_cls sub_cls sub_cls sub_cls ?data = Inr c0"
    by (simp add: Clan_init_def data_get_default_def)
  have "map_of ?data ''labels'' = Some (JArr [JStr ''a'', JStr ''b'', JStr ''a''])"
    by simp
  from C8_labels_order [OF this c0, of correct_tag sub_tag sub_attr
                          "[GetMember ''#X'', Labels, Members]"] c0
  show ?thesis by (simp add: sub_cls_def)
qed

text \<open>
  C9. Constructing a clan from the empty record succeeds; every scalar field is
  \<^verbatim>\<open>None\<close>, the labels accessor returns the empty list and the members accessor returns
  the empty list.
\<close>

theorem C9_empty_record:
  "\<exists>self. Clan_init Label ClanMember Location WarLeague [] = Inr self
     \<and> type self = JNull \<and> description self = JNull \<and> location self = None
     \<and> points self = JNull \<and> versus_points self = JNull
     \<and> required_trophies self = JNull \<and> war_frequency self = JNull
     \<and> war_win_streak self = JNull \<and> war_wins self = JNull \<and> war_ties self = JNull
     \<and> war_losses self = JNull \<and> public_war_log self = JNull
     \<and> member_count self = JNull \<and> war_league self = None
     \<and> fst (labels self) = [] \<and> fst (members tag self) = []"
  by (simp add: Clan_init_def data_get_def data_get_default_def try_enum_def genexpr_def
                labels_def members_def fill_members_def drain_def dict_comp_def dict_values_def)

text \<open>
  C10. For a record whose \<^verbatim>\<open>memberList\<close> key holds an array, in every state the clan
  reaches, the members accessor returns one member for each distinct tag, in the order
  in which the tags first occur in the array; each returned member is the one built
  from the last sub-record with its tag; and when all tags are distinct the result is
  the list of members in the array's order.
\<close>

theorem C10_members_order:
  assumes "map_of data ''memberList'' = Some (JArr mdatas)"
      and "Clan_init Label ClanMember Location WarLeague data = Inr c0"
      and "ms = map ClanMember mdatas"
      and "res = fst (members tag (run normalise tag getattr cs c0))"
  shows "map tag res = first_seen (map tag ms)
       \<and> (\<forall>m \<in> set res. m = last (filter (\<lambda>x. tag x = tag m) ms))
       \<and> (distinct (map tag ms) \<longrightarrow> res = ms)"
proof -
  from members_reached [OF assms(1,2)]
  obtain ls where "lazy_inv ls ms tag (run normalise tag getattr cs c0)"
    unfolding assms(3) by blast
  then have res: "res = map (\<lambda>k. last (filter (\<lambda>m. tag m = k) ms)) (first_seen (map tag ms))"
    unfolding assms(4) by (simp add: members_inv(1) values_dict_comp)
  have "map (\<lambda>k. tag (last (filter (\<lambda>m. tag m = k) ms))) (first_seen (map tag ms))
          = first_seen (map tag ms)"
    by (rule map_idI) (simp add: set_first_seen key_last_filter)
  then have keys: "map tag res = first_seen (map tag ms)"
    unfolding res by (simp add: comp_def)
  have vals: "\<forall>m \<in> set res. m = last (filter (\<lambda>x. tag x = tag m) ms)"
    unfolding res by (auto simp: key_last_filter set_first_seen)
  have "res = ms" if d: "distinct (map tag ms)"
  proof -
    have "res = map (\<lambda>m. last (filter (\<lambda>x. tag x = tag m) ms)) ms"
      unfolding res by (simp add: first_seen_distinct [OF d] comp_def)
    also have "\<dots> = map (\<lambda>m. m) ms"
      by (rule map_cong) (simp_all add: filter_same_key_distinct [OF d])
    finally show ?thesis by simp
  qed
  with keys vals show ?thesis by blast
qed

text \<open>An instance of C10: the tag \<^verbatim>\<open>#P1\<close> at the first and the third place.\<close>

theorem C10_members_order_witness:
  "\<exists>c0. Clan_init sub_cls sub_cls sub_cls sub_cls
            [(''memberList'',
              JArr [JObj [(''tag'', JStr ''#P1''), (''name'', JStr ''a'')],
                    JObj [(''tag'', JStr ''#P2''), (''name'', JStr ''b'')],
                    JObj [(''tag'', JStr ''#P1''), (''name'', JStr ''c'')]])] = Inr c0
     \<and> fst (members sub_tag (run correct_tag sub_tag sub_attr [GetMember ''#P2''] c0))
         = [JObj [(''tag'', JStr ''#P1''), (''name'', JStr ''c'')],
            JObj [(''tag'', JStr ''#P2''), (''name'', JStr ''b'')]]
     \<and> map sub_tag (fst (members sub_tag (run correct_tag sub_tag sub_attr [GetMember ''#P2''] c0)))
         = first_seen [''#P1'', ''#P2'', ''#P1'']"
proof -
  let ?mdatas = "[JObj [(''tag'', JStr ''#P1''), (''name'', JStr ''a'')],
                    JObj [(''tag'', JStr ''#P2''), (''name'', JStr ''b'')],
                    JObj [(''tag'', JStr ''#P1''), (''name'', JStr ''c'')]]"
  let ?data = "[(''memberList'', JArr ?mdatas)]"
  obtain c0 :: "(json, json, json, json) Clan"
    where c0: "Clan_init sub_cls sub_cls sub_cls sub_cls ?data = Inr c0"
    by (simp add: Clan_init_def data_get_default_def)
  have ml: "map_of ?data ''memberList'' = Some (JArr ?mdatas)" by simp
  have direct: "fst (members sub_tag (run correct_tag sub_tag sub_attr [GetMember ''#P2''] c0))
         = [JObj [(''tag'', JStr ''#P1''), (''name'', JStr ''c'')],
            JObj [(''tag'', JStr ''#P2''), (''name'', JStr ''b'')]]"
    using c0 by (auto simp: eval_defs)
  have tags: "map sub_tag (map sub_cls ?mdatas) = [''#P1'', ''#P2'', ''#P1'']"
    by (simp add: sub_tag_def sub_attr_def sub_cls_def data_get_def)
  from C10_members_order [OF ml c0 refl refl, of sub_tag correct_tag sub_attr "[GetMember ''#P2'']"]
  have "map sub_tag (fst (members sub_tag (run correct_tag sub_tag sub_attr [GetMember ''#P2''] c0)))
         = first_seen (map sub_tag (map sub_cls ?mdatas))"
    by blast
  with c0 direct tags show ?thesis by auto
qed

end
